theory Spec2Isabelle
  imports Complex_Main "HOL-Library.Log_Nat" "HOL-Library.Multiset" "HOL-Library.Sublist"
begin

section \<open>Python floats\<close>

text \<open>
  A Python \<^verbatim>\<open>float\<close> is an IEEE-754 binary64 value: a finite number, one of the two
  infinities, or not-a-number. Finite values are carried as rationals; every arithmetic
  result is rounded to the nearest binary64 value (ties to even), with gradual underflow
  and overflow to infinity. For a value of binary exponent \<open>e\<close> (at least \<open>-1022\<close>) the
  significand \<open>n\<close> is the value in units of \<open>2 ^ (e - 52)\<close>, rounded to an integer; the
  result \<open>n * 2 ^ (e - 52)\<close> overflows when it reaches \<open>2 ^ 1024\<close>, which is when
  \<open>e > 1023\<close>, or \<open>e = 1023\<close> and \<open>n\<close> rounds up to \<open>2 ^ 53\<close>.

  The two zeros are identified: the program never divides by zero and never inspects
  the sign of a zero, and \<^verbatim>\<open>0.0 == -0.0\<close> in Python.
\<close>

datatype pyfloat = Fin rat | PInf | NInf | NaN

definition pow2 :: "int \<Rightarrow> rat" where
  "pow2 e = (if 0 \<le> e then 2 ^ nat e else 1 / 2 ^ nat (- e))"

text \<open>The binary exponent of a positive rational: \<open>pow2 e \<le> q < pow2 (e + 1)\<close>.\<close>

definition floor_log2 :: "rat \<Rightarrow> int" where
  "floor_log2 q =
     (let (p, d) = quotient_of q; e0 = bitlen p - bitlen d
      in if pow2 e0 \<le> q then e0 else e0 - 1)"

definition round_half_even :: "rat \<Rightarrow> int" where
  "round_half_even x =
     (let f = \<lfloor>x\<rfloor>; r = x - of_int f
      in if r < 1 / 2 then f else if 1 / 2 < r then f + 1
         else if even f then f else f + 1)"

definition fl64 :: "rat \<Rightarrow> pyfloat" where
  "fl64 x =
     (if x = 0 then Fin 0
      else let e = max (floor_log2 \<bar>x\<bar>) (- 1022);
               u = pow2 (e - 52);
               n = round_half_even (x / u)
           in if 1023 < e \<or> (e = 1023 \<and> 2 ^ 53 \<le> \<bar>n\<bar>)
              then (if 0 < x then PInf else NInf)
              else Fin (of_int n * u))"

text \<open>Python's comparison operators on floats: every comparison with NaN is false.\<close>

fun py_lt :: "pyfloat \<Rightarrow> pyfloat \<Rightarrow> bool" where
  "py_lt (Fin x) (Fin y) = (x < y)"
| "py_lt (Fin x) PInf = True"
| "py_lt NInf (Fin y) = True"
| "py_lt NInf PInf = True"
| "py_lt _ _ = False"

fun py_eq :: "pyfloat \<Rightarrow> pyfloat \<Rightarrow> bool" where
  "py_eq (Fin x) (Fin y) = (x = y)"
| "py_eq PInf PInf = True"
| "py_eq NInf NInf = True"
| "py_eq _ _ = False"

definition py_gt :: "pyfloat \<Rightarrow> pyfloat \<Rightarrow> bool" where
  "py_gt a b = py_lt b a"

definition py_le :: "pyfloat \<Rightarrow> pyfloat \<Rightarrow> bool" where
  "py_le a b = (py_lt a b \<or> py_eq a b)"

definition py_ge :: "pyfloat \<Rightarrow> pyfloat \<Rightarrow> bool" where
  "py_ge a b = py_le b a"

text \<open>
  The builtins \<^verbatim>\<open>min(a, b)\<close> and \<^verbatim>\<open>max(a, b)\<close> keep the first argument unless the
  second is strictly smaller (larger).
\<close>

definition py_min :: "pyfloat \<Rightarrow> pyfloat \<Rightarrow> pyfloat" where
  "py_min a b = (if py_lt b a then b else a)"

definition py_max :: "pyfloat \<Rightarrow> pyfloat \<Rightarrow> pyfloat" where
  "py_max a b = (if py_gt b a then b else a)"

fun fneg :: "pyfloat \<Rightarrow> pyfloat" where
  "fneg (Fin x) = Fin (- x)"
| "fneg PInf = NInf"
| "fneg NInf = PInf"
| "fneg NaN = NaN"

fun fabs :: "pyfloat \<Rightarrow> pyfloat" where
  "fabs (Fin x) = Fin \<bar>x\<bar>"
| "fabs PInf = PInf"
| "fabs NInf = PInf"
| "fabs NaN = NaN"

fun fsub :: "pyfloat \<Rightarrow> pyfloat \<Rightarrow> pyfloat" where
  "fsub (Fin x) (Fin y) = fl64 (x - y)"
| "fsub NaN _ = NaN"
| "fsub _ NaN = NaN"
| "fsub PInf PInf = NaN"
| "fsub NInf NInf = NaN"
| "fsub PInf _ = PInf"
| "fsub NInf _ = NInf"
| "fsub (Fin x) PInf = NInf"
| "fsub (Fin x) NInf = PInf"

fun fmul :: "pyfloat \<Rightarrow> pyfloat \<Rightarrow> pyfloat" where
  "fmul (Fin x) (Fin y) = fl64 (x * y)"
| "fmul NaN _ = NaN"
| "fmul _ NaN = NaN"
| "fmul PInf (Fin y) = (if y = 0 then NaN else if 0 < y then PInf else NInf)"
| "fmul NInf (Fin y) = (if y = 0 then NaN else if 0 < y then NInf else PInf)"
| "fmul (Fin x) PInf = (if x = 0 then NaN else if 0 < x then PInf else NInf)"
| "fmul (Fin x) NInf = (if x = 0 then NaN else if 0 < x then NInf else PInf)"
| "fmul PInf PInf = PInf"
| "fmul PInf NInf = NInf"
| "fmul NInf PInf = NInf"
| "fmul NInf NInf = PInf"

text \<open>
  Division. Python raises \<^verbatim>\<open>ZeroDivisionError\<close> for a zero divisor; the only division
  of the program is guarded by \<^verbatim>\<open>y_max > 0\<close>, so that branch is never taken and is
  given the value NaN here.
\<close>

fun fdiv :: "pyfloat \<Rightarrow> pyfloat \<Rightarrow> pyfloat" where
  "fdiv (Fin x) (Fin y) = (if y = 0 then NaN else fl64 (x / y))"
| "fdiv NaN _ = NaN"
| "fdiv _ NaN = NaN"
| "fdiv (Fin x) PInf = Fin 0"
| "fdiv (Fin x) NInf = Fin 0"
| "fdiv PInf (Fin y) = (if y = 0 then NaN else if 0 < y then PInf else NInf)"
| "fdiv NInf (Fin y) = (if y = 0 then NaN else if 0 < y then NInf else PInf)"
| "fdiv _ _ = NaN"

section \<open>Python exceptions\<close>

datatype error = TypeError | ValueError | OverflowError | AttributeError | ZeroDivisionError

section \<open>Dual-axis alignment\<close>

text \<open>
  \<^verbatim>\<open>align_yaxis_zero(ax1, ax2)\<close> of shot_viewer.py and \<^verbatim>\<open>_align_yaxis_zero\<close> of
  plot_met.py are the same function. An axis is modelled by its pair of y-limits, which
  \<^verbatim>\<open>get_ylim\<close> reads.

  \<^verbatim>\<open>set_ylim(bottom, top)\<close> belongs to matplotlib: it raises \<^verbatim>\<open>ValueError\<close> (``Axis limits
  cannot be NaN or Inf'') when a limit is not finite, before it changes the axis, and
  otherwise the pair becomes the limits of the axis.
\<close>

type_synonym ylim = "pyfloat \<times> pyfloat"

fun is_fin :: "pyfloat \<Rightarrow> bool" where
  "is_fin (Fin x) = True"
| "is_fin _ = False"

definition set_ylim :: "pyfloat \<Rightarrow> pyfloat \<Rightarrow> error + ylim" where
  "set_ylim bottom_lim top_lim =
     (if is_fin bottom_lim \<and> is_fin top_lim then Inr (bottom_lim, top_lim)
      else Inl ValueError)"

definition ratio :: "pyfloat \<Rightarrow> pyfloat \<Rightarrow> pyfloat" where
  "ratio y_min y_max = (if py_gt y_max (Fin 0) then fdiv (fneg y_min) y_max else PInf)"

text \<open>
  The function changes the two axes in place. The result is the pair of axes as the
  function leaves them: \<open>Inr\<close> when it returns, \<open>Inl\<close> with the exception when
  \<^verbatim>\<open>set_ylim\<close> raises. A first axis that was set before the second \<^verbatim>\<open>set_ylim\<close> raises
  stays set.
\<close>

definition align_yaxis_zero :: "ylim \<Rightarrow> ylim \<Rightarrow> (error \<times> ylim \<times> ylim) + (ylim \<times> ylim)" where
  "align_yaxis_zero ax1 ax2 =
     (let y1_min = py_min (fst ax1) (Fin 0); y1_max = py_max (snd ax1) (Fin 0);
          y2_min = py_min (fst ax2) (Fin 0); y2_max = py_max (snd ax2) (Fin 0)
      in if py_eq y1_max (Fin 0) \<and> py_eq y2_max (Fin 0) then Inr (ax1, ax2)
         else if py_eq y1_min (Fin 0) \<and> py_eq y2_min (Fin 0) then Inr (ax1, ax2)
         else
           let ratio1 = ratio y1_min y1_max;
               ratio2 = ratio y2_min y2_max;
               target_ratio = py_max ratio1 ratio2
           in case (if py_gt y1_max (Fin 0)
                    then set_ylim (fmul (fneg target_ratio) y1_max) y1_max else Inr ax1) of
                Inl e \<Rightarrow> Inl (e, ax1, ax2)
              | Inr ax1' \<Rightarrow>
                  (case (if py_gt y2_max (Fin 0)
                         then set_ylim (fmul (fneg target_ratio) y2_max) y2_max else Inr ax2) of
                     Inl e \<Rightarrow> Inl (e, ax1', ax2)
                   | Inr ax2' \<Rightarrow> Inr (ax1', ax2')))"

text \<open>Names for the intermediate values of the function, used to state its properties.\<close>

definition widen :: "ylim \<Rightarrow> ylim" where
  "widen ax = (py_min (fst ax) (Fin 0), py_max (snd ax) (Fin 0))"

definition early_return :: "ylim \<Rightarrow> ylim \<Rightarrow> bool" where
  "early_return ax1 ax2 =
     ((py_eq (snd (widen ax1)) (Fin 0) \<and> py_eq (snd (widen ax2)) (Fin 0)) \<or>
      (py_eq (fst (widen ax1)) (Fin 0) \<and> py_eq (fst (widen ax2)) (Fin 0)))"

definition target_ratio :: "ylim \<Rightarrow> ylim \<Rightarrow> pyfloat" where
  "target_ratio ax1 ax2 =
     py_max (ratio (fst (widen ax1)) (snd (widen ax1)))
            (ratio (fst (widen ax2)) (snd (widen ax2)))"

definition has_positive_side :: "ylim \<Rightarrow> bool" where
  "has_positive_side ax = py_gt (snd (widen ax)) (Fin 0)"

text \<open>The guarded \<^verbatim>\<open>set_ylim\<close> call on one axis, for the target ratio \<open>t\<close>.\<close>

definition new_ylim :: "pyfloat \<Rightarrow> ylim \<Rightarrow> error + ylim" where
  "new_ylim t ax =
     (if has_positive_side ax then set_ylim (fmul (fneg t) (snd ax)) (snd ax) else Inr ax)"

definition contains_zero :: "ylim \<Rightarrow> bool" where
  "contains_zero ax = (py_le (fst ax) (Fin 0) \<and> py_le (Fin 0) (snd ax))"

definition finite_range :: "ylim \<Rightarrow> bool" where
  "finite_range ax = (is_fin (fst ax) \<and> is_fin (snd ax))"

section \<open>JSON values and the builtin \<^verbatim>\<open>float\<close>\<close>

text \<open>
  What \<^verbatim>\<open>json.load\<close> returns: \<^verbatim>\<open>None\<close>, a bool, an unbounded int, a float (the parser
  also accepts \<^verbatim>\<open>NaN\<close>, \<^verbatim>\<open>Infinity\<close> and literals that overflow to infinity), a
  string, a list, or a dict. A dict is given by its items; keys are looked up with
  \<^const>\<open>map_of\<close>.
\<close>

datatype json =
    JNull
  | JBool bool
  | JInt int
  | JFloat pyfloat
  | JStr string
  | JList "json list"
  | JDict "(string \<times> json) list"

text \<open>
  \<^verbatim>\<open>float(v)\<close>. A float is returned as it is, a bool is 0 or 1, an int is rounded to
  binary64 and raises \<^verbatim>\<open>OverflowError\<close> when it is out of range, a string is parsed
  and raises \<^verbatim>\<open>ValueError\<close> when it is not a number, and \<^verbatim>\<open>None\<close>, lists and dicts
  raise \<^verbatim>\<open>TypeError\<close>. The grammar of numeric strings belongs to the language, not to
  the program; it is the parameter \<open>fos\<close> (\<open>None\<close> for a string that is rejected).
\<close>

type_synonym float_parser = "string \<Rightarrow> pyfloat option"

definition py_float :: "float_parser \<Rightarrow> json \<Rightarrow> error + pyfloat" where
  "py_float fos v =
     (case v of
        JNull \<Rightarrow> Inl TypeError
      | JBool b \<Rightarrow> Inr (Fin (if b then 1 else 0))
      | JInt n \<Rightarrow> (case fl64 (of_int n) of Fin x \<Rightarrow> Inr (Fin x) | _ \<Rightarrow> Inl OverflowError)
      | JFloat f \<Rightarrow> Inr f
      | JStr s \<Rightarrow> (case fos s of Some f \<Rightarrow> Inr f | None \<Rightarrow> Inl ValueError)
      | JList xs \<Rightarrow> Inl TypeError
      | JDict kvs \<Rightarrow> Inl TypeError)"

text \<open>Sequencing of computations that may raise, and a list comprehension over them.\<close>

definition bind_err :: "error + 'a \<Rightarrow> ('a \<Rightarrow> error + 'b) \<Rightarrow> error + 'b" where
  "bind_err m f = (case m of Inl e \<Rightarrow> Inl e | Inr v \<Rightarrow> f v)"

fun map_err :: "('a \<Rightarrow> error + 'b) \<Rightarrow> 'a list \<Rightarrow> error + 'b list" where
  "map_err f [] = Inr []"
| "map_err f (x # xs) = bind_err (f x) (\<lambda>y. bind_err (map_err f xs) (\<lambda>ys. Inr (y # ys)))"

section \<open>Field accessor\<close>

text \<open>\<^verbatim>\<open>safe_get(d, path, default)\<close> of shot_viewer.py, \<^verbatim>\<open>_safe_get\<close> of plot_met.py.\<close>

fun safe_get :: "json \<Rightarrow> string list \<Rightarrow> json \<Rightarrow> json" where
  "safe_get cur [] dflt = cur"
| "safe_get cur (k # ks) dflt =
     (case cur of
        JDict kvs \<Rightarrow> (case map_of kvs k of None \<Rightarrow> dflt | Some v \<Rightarrow> safe_get v ks dflt)
      | _ \<Rightarrow> dflt)"

section \<open>Time normalizer\<close>

text \<open>
  \<^verbatim>\<open>sorted\<close> is a stable sort that compares with \<^verbatim>\<open><\<close> only; it is modelled by a
  stable insertion sort with the same comparison.
\<close>

fun insort_py :: "pyfloat \<Rightarrow> pyfloat list \<Rightarrow> pyfloat list" where
  "insort_py x [] = [x]"
| "insort_py x (y # ys) = (if py_lt y x then y # insort_py x ys else x # y # ys)"

definition sorted_py :: "pyfloat list \<Rightarrow> pyfloat list" where
  "sorted_py xs = foldr insort_py xs []"

text \<open>\<^verbatim>\<open>[abs(times_raw[i] - times_raw[i - 1]) for i in range(1, len(times_raw))]\<close>\<close>

fun deltas :: "pyfloat list \<Rightarrow> pyfloat list" where
  "deltas (a # b # ts) = fabs (fsub b a) # deltas (b # ts)"
| "deltas _ = []"

text \<open>\<^verbatim>\<open>infer_time_scale(times_raw)\<close> of shot_viewer.py.\<close>

definition infer_time_scale :: "pyfloat list \<Rightarrow> pyfloat" where
  "infer_time_scale times_raw =
     (if length times_raw < 2 then Fin 1
      else let ds = filter (\<lambda>d. py_gt d (Fin 0)) (deltas times_raw)
           in if ds = [] then Fin 1
              else let deltas_sorted = sorted_py ds;
                       med = deltas_sorted ! (length deltas_sorted div 2)
                   in if py_ge med (Fin 5) then fdiv (Fin 1) (Fin 1000) else Fin 1)"

text \<open>
  \<^verbatim>\<open>_infer_time_scale_ms_to_s(times_raw)\<close> of plot_met.py: the same steps, with the last
  test written as an early return.
\<close>

definition infer_time_scale_ms_to_s :: "pyfloat list \<Rightarrow> pyfloat" where
  "infer_time_scale_ms_to_s times_raw =
     (if length times_raw < 2 then Fin 1
      else let ds = filter (\<lambda>d. py_gt d (Fin 0)) (deltas times_raw)
           in if ds = [] then Fin 1
              else let deltas_sorted = sorted_py ds;
                       med = deltas_sorted ! (length deltas_sorted div 2)
                   in if py_ge med (Fin 5) then fdiv (Fin 1) (Fin 1000)
                      else Fin 1)"

text \<open>
  The three lines that both \<^verbatim>\<open>ShotData._load\<close> and \<^verbatim>\<open>build_series\<close> run on the raw
  times: \<^verbatim>\<open>t0 = times_raw[0] if times_raw else 0.0\<close>, the inferred scale, and
  \<^verbatim>\<open>[(t - t0) * scale for t in times_raw]\<close>.
\<close>

definition elapsed_seconds :: "(pyfloat list \<Rightarrow> pyfloat) \<Rightarrow> pyfloat list \<Rightarrow> pyfloat list" where
  "elapsed_seconds infer times_raw =
     (let t0 = (case times_raw of [] \<Rightarrow> Fin 0 | t # _ \<Rightarrow> t);
          scale = infer times_raw
      in map (\<lambda>t. fmul (fsub t t0) scale) times_raw)"

text \<open>
  \<^verbatim>\<open>float(r.get("time", 0.0))\<close>: a record that is not a dict has no \<^verbatim>\<open>get\<close>
  (\<^verbatim>\<open>AttributeError\<close>).
\<close>

definition record_time :: "float_parser \<Rightarrow> json \<Rightarrow> error + pyfloat" where
  "record_time fos r =
     (case r of
        JDict kvs \<Rightarrow>
          py_float fos (case map_of kvs ''time'' of None \<Rightarrow> JFloat (Fin 0) | Some v \<Rightarrow> v)
      | _ \<Rightarrow> Inl AttributeError)"

definition times_raw_of :: "float_parser \<Rightarrow> json list \<Rightarrow> error + pyfloat list" where
  "times_raw_of fos recs = map_err (record_time fos) recs"

section \<open>Shots (shot_viewer.py)\<close>

record shot_data =
  profile_name :: json
  shot_time :: json
  records :: "json list"
  time_s :: "pyfloat list"

text \<open>
  \<^verbatim>\<open>ShotData._load\<close>, from the parsed document on. The test
  \<^verbatim>\<open>"data" not in doc or not isinstance(doc["data"], list)\<close> raises \<^verbatim>\<open>ValueError\<close>; on
  a document that is not a dict the operator \<^verbatim>\<open>in\<close> or the subscript raises
  \<^verbatim>\<open>TypeError\<close> first.
\<close>

definition dict_get :: "(string \<times> json) list \<Rightarrow> string \<Rightarrow> json \<Rightarrow> json" where
  "dict_get kvs k dflt = (case map_of kvs k of None \<Rightarrow> dflt | Some v \<Rightarrow> v)"

definition ShotData_load :: "float_parser \<Rightarrow> json \<Rightarrow> error + shot_data" where
  "ShotData_load fos doc =
     (case doc of
        JDict kvs \<Rightarrow>
          (case map_of kvs ''data'' of
             Some (JList recs) \<Rightarrow>
               bind_err (times_raw_of fos recs) (\<lambda>times_raw.
                 Inr \<lparr> profile_name = dict_get kvs ''profile_name'' (JStr ''Unknown Profile''),
                       shot_time = dict_get kvs ''time'' JNull,
                       records = recs,
                       time_s = elapsed_seconds infer_time_scale times_raw \<rparr>)
           | _ \<Rightarrow> Inl ValueError)
      | JList xs \<Rightarrow> (if JStr ''data'' \<in> set xs then Inl TypeError else Inl ValueError)
      | JStr s \<Rightarrow> (if sublist ''data'' s then Inl TypeError else Inl ValueError)
      | _ \<Rightarrow> Inl TypeError)"

text \<open>
  \<^verbatim>\<open>ShotData.get_series(path)\<close>. The \<^verbatim>\<open>try\<close> catches \<^verbatim>\<open>TypeError\<close> and
  \<^verbatim>\<open>ValueError\<close>; any other exception of \<^verbatim>\<open>float\<close> leaves the function.
\<close>

definition series_value :: "float_parser \<Rightarrow> json \<Rightarrow> error + pyfloat" where
  "series_value fos val =
     (if val = JNull then Inr NaN
      else case py_float fos val of
             Inr f \<Rightarrow> Inr f
           | Inl TypeError \<Rightarrow> Inr NaN
           | Inl ValueError \<Rightarrow> Inr NaN
           | Inl e \<Rightarrow> Inl e)"

definition get_series :: "float_parser \<Rightarrow> shot_data \<Rightarrow> string list \<Rightarrow> error + pyfloat list" where
  "get_series fos self path =
     map_err (\<lambda>r. series_value fos (safe_get r path (JFloat NaN))) (records self)"

section \<open>Series builder (plot_met.py)\<close>

record series =
  series_time_s :: "pyfloat list"
  series_pressure :: "pyfloat list"
  series_flow :: "pyfloat list"
  series_motor_speed :: "pyfloat list"
  series_motor_power :: "pyfloat list"
  series_goal_pressure :: "pyfloat list"
  series_goal_flow :: "pyfloat list"
  series_goal_power :: "pyfloat list"
  series_active :: "json list"

text \<open>\<^verbatim>\<open>float(_safe_get(r, path))\<close>, with no \<^verbatim>\<open>try\<close> around it.\<close>

definition actual :: "float_parser \<Rightarrow> string list \<Rightarrow> json \<Rightarrow> error + pyfloat" where
  "actual fos path r = py_float fos (safe_get r path (JFloat NaN))"

text \<open>
  \<^verbatim>\<open>float(sp[k]) if k in sp and sp[k] is not None else float("nan")\<close>
\<close>

definition goal :: "float_parser \<Rightarrow> (string \<times> json) list \<Rightarrow> string \<Rightarrow> error + pyfloat" where
  "goal fos sp k =
     (case map_of sp k of
        None \<Rightarrow> Inr NaN
      | Some v \<Rightarrow> (if v = JNull then Inr NaN else py_float fos v))"

text \<open>One pass of the loop over the records: the setpoints dict, then the four appends.\<close>

definition goals_of :: "float_parser \<Rightarrow> json \<Rightarrow> error + (json \<times> pyfloat \<times> pyfloat \<times> pyfloat)" where
  "goals_of fos r =
     (let sp = (case safe_get r [''shot'', ''setpoints''] (JDict []) of
                  JDict kvs \<Rightarrow> kvs | _ \<Rightarrow> [])
      in bind_err (goal fos sp ''pressure'') (\<lambda>gp.
         bind_err (goal fos sp ''flow'') (\<lambda>gf.
         bind_err (goal fos sp ''power'') (\<lambda>gw.
           Inr (dict_get sp ''active'' JNull, gp, gf, gw)))))"

definition build_series :: "float_parser \<Rightarrow> json list \<Rightarrow> error + series" where
  "build_series fos recs =
     bind_err (times_raw_of fos recs) (\<lambda>times_raw.
     bind_err (map_err (actual fos [''shot'', ''pressure'']) recs) (\<lambda>pressure.
     bind_err (map_err (actual fos [''shot'', ''flow'']) recs) (\<lambda>flow.
     bind_err (map_err (actual fos [''sensors'', ''motor_speed'']) recs) (\<lambda>motor_speed.
     bind_err (map_err (actual fos [''sensors'', ''motor_power'']) recs) (\<lambda>motor_power.
     bind_err (map_err (goals_of fos) recs) (\<lambda>gs.
       Inr \<lparr> series_time_s = elapsed_seconds infer_time_scale_ms_to_s times_raw,
             series_pressure = pressure,
             series_flow = flow,
             series_motor_speed = motor_speed,
             series_motor_power = motor_power,
             series_goal_pressure = map (\<lambda>(a, gp, gf, gw). gp) gs,
             series_goal_flow = map (\<lambda>(a, gp, gf, gw). gf) gs,
             series_goal_power = map (\<lambda>(a, gp, gf, gw). gw) gs,
             series_active = map (\<lambda>(a, gp, gf, gw). a) gs \<rparr>))))))"

section \<open>Trim selector\<close>

text \<open>
  \<^verbatim>\<open>get_trimmed_data(shot, settings)\<close> inside \<^verbatim>\<open>_update_plot\<close>. The settings dict holds
  at most the key \<^verbatim>\<open>trim_duration\<close>, a number: \<open>None\<close> when the key is absent. The loop
  leaves \<^verbatim>\<open>trim_idx\<close> at its initial value, the length, unless it breaks at the first
  \<open>t > trim_duration\<close>.
\<close>

fun trim_loop :: "pyfloat \<Rightarrow> nat \<Rightarrow> pyfloat list \<Rightarrow> nat \<Rightarrow> nat" where
  "trim_loop trim_duration i [] trim_idx = trim_idx"
| "trim_loop trim_duration i (t # ts) trim_idx =
     (if py_gt t trim_duration then i else trim_loop trim_duration (Suc i) ts trim_idx)"

definition get_trimmed_data :: "shot_data \<Rightarrow> pyfloat option \<Rightarrow> nat" where
  "get_trimmed_data shot settings =
     (let trim_duration =
            (case settings of
               Some d \<Rightarrow> d
             | None \<Rightarrow> (if time_s shot \<noteq> [] then last (time_s shot) else Fin 0))
      in trim_loop trim_duration 0 (time_s shot) (length (time_s shot)))"

section \<open>Comparison assembler\<close>

text \<open>
  The overlay branch of \<^verbatim>\<open>_update_plot\<close>: for the \<open>i\<close>-th selected field with key
  \<open>key\<close>, the colour, line style and line width handed to the two \<^verbatim>\<open>plot\<close> calls. A
  style override is a dict with optional entries; the palette \<^verbatim>\<open>plt.cm.tab10.colors\<close>
  is the parameter \<open>colors\<close>.
\<close>

datatype color = Named string | RGB rat rat rat

record style =
  style_color :: "string option"
  style_linestyle :: "string option"
  style_linewidth :: "rat option"

record trace =
  trace_color :: color
  trace_linestyle :: string
  trace_linewidth :: rat

definition no_style :: style where
  "no_style = \<lparr> style_color = None, style_linestyle = None, style_linewidth = None \<rparr>"

definition compare_traces ::
  "color list \<Rightarrow> (string \<rightharpoonup> style) \<Rightarrow> nat \<Rightarrow> string \<Rightarrow> error + (trace \<times> trace)" where
  "compare_traces colors field_styles i key =
     (let style = (case field_styles key of None \<Rightarrow> no_style | Some st \<Rightarrow> st)
      in bind_err
           (case style_color style of
              Some c \<Rightarrow> if c \<noteq> [] then Inr (Named c)
                        else if colors = [] then Inl ZeroDivisionError
                        else Inr (colors ! (i mod length colors))
            | None \<Rightarrow> if colors = [] then Inl ZeroDivisionError
                      else Inr (colors ! (i mod length colors)))
           (\<lambda>color.
              let linestyle = (case style_linestyle style of None \<Rightarrow> ''-'' | Some l \<Rightarrow> l);
                  linewidth = (case style_linewidth style of None \<Rightarrow> 3 / 2 | Some w \<Rightarrow> w);
                  ls2 = (if linestyle = ''-'' then ''--'' else '':'')
              in Inr (\<lparr> trace_color = color, trace_linestyle = linestyle,
                          trace_linewidth = linewidth \<rparr>,
                      \<lparr> trace_color = color, trace_linestyle = ls2,
                          trace_linewidth = linewidth \<rparr>)))"

text \<open>Names used to state the properties below.\<close>

definition trim_duration_of :: "shot_data \<Rightarrow> pyfloat option \<Rightarrow> pyfloat" where
  "trim_duration_of shot settings =
     (case settings of
        Some d \<Rightarrow> d
      | None \<Rightarrow> (if time_s shot \<noteq> [] then last (time_s shot) else Fin 0))"




section \<open>The two-record document of the specification\<close>

definition example_doc :: json where
  "example_doc = JDict [(''data'', JList
     [JDict [(''time'', JInt 0), (''shot'', JDict [(''pressure'', JFloat (Fin 9))])],
      JDict [(''time'', JInt 100), (''shot'', JDict [(''pressure'', JFloat (Fin (17 / 2)))])]])]"

definition example_shot :: shot_data where
  "example_shot = \<lparr> profile_name = JStr ''Unknown Profile'', shot_time = JNull,
     records =
       [JDict [(''time'', JInt 0), (''shot'', JDict [(''pressure'', JFloat (Fin 9))])],
        JDict [(''time'', JInt 100), (''shot'', JDict [(''pressure'', JFloat (Fin (17 / 2)))])]],
     time_s = [Fin 0, Fin (3602879701896397 / 36028797018963968)] \<rparr>"

definition example_series :: series where
  "example_series =
     \<lparr> series_time_s = [Fin 0, Fin (3602879701896397 / 36028797018963968)],
       series_pressure = [Fin 9, Fin (17 / 2)],
       series_flow = [NaN, NaN], series_motor_speed = [NaN, NaN],
       series_motor_power = [NaN, NaN], series_goal_pressure = [NaN, NaN],
       series_goal_flow = [NaN, NaN], series_goal_power = [NaN, NaN],
       series_active = [JNull, JNull] \<rparr>"

section \<open>Properties of the float model\<close>

lemma pow2_pos: "0 < pow2 e"
  by (simp add: pow2_def)

lemma round_half_even_nonneg: "0 \<le> x \<Longrightarrow> 0 \<le> round_half_even x"
  by (simp add: round_half_even_def Let_def)

lemma round_half_even_nonpos: "x \<le> 0 \<Longrightarrow> round_half_even x \<le> 0"
proof -
  assume x: "x \<le> 0"
  show ?thesis
  proof (cases "x = of_int \<lfloor>x\<rfloor>")
    case True
    then have "x - of_int \<lfloor>x\<rfloor> = 0" by simp
    moreover have "\<lfloor>x\<rfloor> \<le> 0" using x by (simp add: floor_le_zero)
    ultimately show ?thesis by (simp add: round_half_even_def Let_def)
  next
    case False
    then have "of_int \<lfloor>x\<rfloor> < x" by (metis of_int_floor_le order_less_le)
    with x have "(of_int \<lfloor>x\<rfloor> :: rat) < 0" by linarith
    then have "\<lfloor>x\<rfloor> < 0" by simp
    then have "\<lfloor>x\<rfloor> + 1 \<le> 0" by linarith
    moreover have "\<lfloor>x\<rfloor> \<le> 0" using \<open>\<lfloor>x\<rfloor> < 0\<close> by linarith
    ultimately show ?thesis by (simp add: round_half_even_def Let_def)
  qed
qed

lemma fl64_nonneg: "0 \<le> x \<Longrightarrow> fl64 x = PInf \<or> (\<exists>y. fl64 x = Fin y \<and> 0 \<le> y)"
proof -
  assume x: "0 \<le> x"
  have "0 \<le> round_half_even (x / pow2 e)" for e
    using x pow2_pos [of e] by (intro round_half_even_nonneg) simp
  then have "0 \<le> (of_int (round_half_even (x / pow2 e)) :: rat) * pow2 e" for e
    using pow2_pos [of e] by simp
  then show ?thesis using x by (auto simp: fl64_def Let_def)
qed

lemma fl64_nonpos: "x \<le> 0 \<Longrightarrow> fl64 x = NInf \<or> (\<exists>y. fl64 x = Fin y \<and> y \<le> 0)"
proof -
  assume x: "x \<le> 0"
  have "round_half_even (x / pow2 e) \<le> 0" for e
    using x pow2_pos [of e] by (intro round_half_even_nonpos) (simp add: divide_le_0_iff)
  then have "(of_int (round_half_even (x / pow2 e)) :: rat) * pow2 e \<le> 0" for e
    using pow2_pos [of e] by (simp add: mult_le_0_iff)
  then show ?thesis using x by (auto simp: fl64_def Let_def)
qed

subsection \<open>The binary exponent and overflow\<close>

lemma pow2_powi: "pow2 e = 2 powi e"
  by (simp add: pow2_def power_int_def inverse_eq_divide power_one_over)

lemma pow2_mono: "a \<le> b \<Longrightarrow> pow2 a \<le> pow2 b"
  by (simp add: pow2_powi power_int_increasing)

lemma pow2_less_cancel: "pow2 a < pow2 b \<Longrightarrow> a < b"
  using pow2_mono [of b a] by (cases "a < b") auto

lemma bitlen_ratio:
  fixes p d :: int
  assumes "0 < p" "0 < d"
  shows "pow2 (bitlen p - bitlen d - 1) \<le> of_int p / of_int d"
    and "(of_int p / of_int d :: rat) < pow2 (bitlen p - bitlen d + 1)"
proof -
  from bitlen_bounds [OF assms(1)] have p1: "2 ^ nat (bitlen p - 1) \<le> p" and p2: "p < 2 ^ nat (bitlen p)"
    by simp_all
  from bitlen_bounds [OF assms(2)] have d1: "2 ^ nat (bitlen d - 1) \<le> d" and d2: "d < 2 ^ nat (bitlen d)"
    by simp_all
  have bp: "1 \<le> bitlen p" and bd: "1 \<le> bitlen d"
    using assms by (auto simp: bitlen_alt_def)
  have P1: "pow2 (bitlen p - 1) \<le> of_int p"
  proof -
    have "(of_int (2 ^ nat (bitlen p - 1)) :: rat) \<le> of_int p" using p1 by (simp only: of_int_le_iff)
    then show ?thesis using bp by (simp add: pow2_def)
  qed
  have P2: "of_int p < pow2 (bitlen p)"
  proof -
    have "(of_int p :: rat) < of_int (2 ^ nat (bitlen p))" using p2 by (simp only: of_int_less_iff)
    then show ?thesis using bp by (simp add: pow2_def)
  qed
  have D1: "pow2 (bitlen d - 1) \<le> of_int d"
  proof -
    have "(of_int (2 ^ nat (bitlen d - 1)) :: rat) \<le> of_int d" using d1 by (simp only: of_int_le_iff)
    then show ?thesis using bd by (simp add: pow2_def)
  qed
  have D2: "of_int d < pow2 (bitlen d)"
  proof -
    have "(of_int d :: rat) < of_int (2 ^ nat (bitlen d))" using d2 by (simp only: of_int_less_iff)
    then show ?thesis using bd by (simp add: pow2_def)
  qed
  have pp: "0 < pow2 e" for e by (simp add: pow2_def)
  have dpos: "(0::rat) < of_int d" using assms by simp
  have ppos: "(0::rat) < of_int p" using assms by simp
  have "pow2 (bitlen p - bitlen d - 1) = pow2 ((bitlen p - 1) - bitlen d)"
    by (simp add: algebra_simps)
  also have "\<dots> = pow2 (bitlen p - 1) / pow2 (bitlen d)"
    unfolding pow2_powi by (rule power_int_diff) simp
  also have "\<dots> \<le> of_int p / pow2 (bitlen d)"
    using P1 by (simp add: divide_right_mono pow2_powi)
  also have "\<dots> \<le> of_int p / of_int d"
    using D2 dpos ppos by (simp add: frac_le)
  finally show "pow2 (bitlen p - bitlen d - 1) \<le> of_int p / of_int d" .
  have "(of_int p / of_int d :: rat) < pow2 (bitlen p) / of_int d"
    using P2 dpos by (simp add: divide_strict_right_mono)
  also have "\<dots> \<le> pow2 (bitlen p) / pow2 (bitlen d - 1)"
  proof (rule divide_left_mono)
    show "pow2 (bitlen d - 1) \<le> of_int d" by (rule D1)
    show "0 \<le> pow2 (bitlen p)" using pp [of "bitlen p"] by simp
    show "0 < of_int d * pow2 (bitlen d - 1)" using dpos pp [of "bitlen d - 1"] by simp
  qed
  also have "\<dots> = pow2 (bitlen p - (bitlen d - 1))"
    unfolding pow2_powi by (rule power_int_diff [symmetric]) simp
  also have "\<dots> = pow2 (bitlen p - bitlen d + 1)"
    by (simp add: algebra_simps)
  finally show "(of_int p / of_int d :: rat) < pow2 (bitlen p - bitlen d + 1)" .
qed

lemma floor_log2_bounds:
  assumes "0 < q"
  shows "pow2 (floor_log2 q) \<le> q \<and> q < pow2 (floor_log2 q + 1)"
proof -
  obtain p d where pd: "quotient_of q = (p, d)" by (cases "quotient_of q")
  then have q: "q = of_int p / of_int d" and d: "0 < d"
    by (simp_all add: quotient_of_div quotient_of_denom_pos)
  with assms have p: "0 < p" by (simp add: zero_less_divide_iff)
  from bitlen_ratio [OF p d] q
  have lo: "pow2 (bitlen p - bitlen d - 1) \<le> q" and hi: "q < pow2 (bitlen p - bitlen d + 1)"
    by simp_all
  show ?thesis
    using lo hi pd by (simp add: floor_log2_def Let_def not_le)
qed

lemma floor_log2_ge: "0 < q \<Longrightarrow> pow2 e \<le> q \<Longrightarrow> e \<le> floor_log2 q"
proof -
  assume "0 < q" "pow2 e \<le> q"
  with floor_log2_bounds [of q] have "pow2 e < pow2 (floor_log2 q + 1)" by simp
  from pow2_less_cancel [OF this] show ?thesis by simp
qed

lemma fl64_overflow: "pow2 1024 \<le> x \<Longrightarrow> fl64 x = PInf"
proof -
  assume h: "pow2 1024 \<le> x"
  have "0 < pow2 1024" by (simp add: pow2_def)
  with h have x: "0 < x" by simp
  with h have "1024 \<le> floor_log2 \<bar>x\<bar>" by (simp add: floor_log2_ge)
  with x show ?thesis by (simp add: fl64_def Let_def)
qed

lemma fl64_zero: "fl64 0 = Fin 0"
  by (simp add: fl64_def)

lemma milli: "fdiv (Fin 1) (Fin 1000) = Fin (1152921504606847 / 1152921504606846976)"
  by code_simp

section \<open>Dual-axis alignment: proofs\<close>

subsection \<open>The branches of the function\<close>

lemma widen_max_pos: "has_positive_side ax \<Longrightarrow> snd (widen ax) = snd ax"
  by (cases "snd ax") (auto simp: has_positive_side_def widen_def py_max_def py_gt_def)

lemma has_positive_side_snd: "snd a = snd b \<Longrightarrow> has_positive_side a = has_positive_side b"
  by (simp add: has_positive_side_def widen_def)

lemma align_early: "early_return ax1 ax2 \<Longrightarrow> align_yaxis_zero ax1 ax2 = Inr (ax1, ax2)"
  by (auto simp: early_return_def widen_def align_yaxis_zero_def Let_def)

lemma align_not_early:
  "\<not> early_return ax1 ax2 \<Longrightarrow>
   align_yaxis_zero ax1 ax2 =
     (case new_ylim (target_ratio ax1 ax2) ax1 of
        Inl e \<Rightarrow> Inl (e, ax1, ax2)
      | Inr ax1' \<Rightarrow>
          (case new_ylim (target_ratio ax1 ax2) ax2 of
             Inl e \<Rightarrow> Inl (e, ax1', ax2)
           | Inr ax2' \<Rightarrow> Inr (ax1', ax2')))"
proof -
  assume ne: "\<not> early_return ax1 ax2"
  have 1: "has_positive_side ax1 \<Longrightarrow> py_max (snd ax1) (Fin 0) = snd ax1"
    using widen_max_pos [of ax1] by (simp add: widen_def)
  have 2: "has_positive_side ax2 \<Longrightarrow> py_max (snd ax2) (Fin 0) = snd ax2"
    using widen_max_pos [of ax2] by (simp add: widen_def)
  have n1: "new_ylim (target_ratio ax1 ax2) ax1 =
      (if py_gt (py_max (snd ax1) (Fin 0)) (Fin 0)
       then set_ylim (fmul (fneg (target_ratio ax1 ax2)) (py_max (snd ax1) (Fin 0)))
              (py_max (snd ax1) (Fin 0))
       else Inr ax1)"
  proof (cases "has_positive_side ax1")
    case True
    from 1 [OF True] True show ?thesis
      by (simp add: new_ylim_def has_positive_side_def widen_def)
  next
    case False
    then show ?thesis by (simp add: new_ylim_def has_positive_side_def widen_def)
  qed
  have n2: "new_ylim (target_ratio ax1 ax2) ax2 =
      (if py_gt (py_max (snd ax2) (Fin 0)) (Fin 0)
       then set_ylim (fmul (fneg (target_ratio ax1 ax2)) (py_max (snd ax2) (Fin 0)))
              (py_max (snd ax2) (Fin 0))
       else Inr ax2)"
  proof (cases "has_positive_side ax2")
    case True
    from 2 [OF True] True show ?thesis
      by (simp add: new_ylim_def has_positive_side_def widen_def)
  next
    case False
    then show ?thesis by (simp add: new_ylim_def has_positive_side_def widen_def)
  qed
  from ne have a: "\<not> (py_eq (py_max (snd ax1) (Fin 0)) (Fin 0) \<and> py_eq (py_max (snd ax2) (Fin 0)) (Fin 0))"
    and b: "\<not> (py_eq (py_min (fst ax1) (Fin 0)) (Fin 0) \<and> py_eq (py_min (fst ax2) (Fin 0)) (Fin 0))"
    by (simp_all add: early_return_def widen_def)
  have t: "target_ratio ax1 ax2 =
      py_max (ratio (py_min (fst ax1) (Fin 0)) (py_max (snd ax1) (Fin 0)))
             (ratio (py_min (fst ax2) (Fin 0)) (py_max (snd ax2) (Fin 0)))"
    by (simp add: target_ratio_def widen_def)
  show ?thesis
    unfolding n1 n2 unfolding t align_yaxis_zero_def Let_def by (simp only: a b if_False)
qed

lemma new_ylim_snd: "new_ylim t ax = Inr ax' \<Longrightarrow> snd ax' = snd ax"
  by (auto simp: new_ylim_def set_ylim_def split: if_splits)

lemma new_ylim_again: "new_ylim t ax = Inr ax' \<Longrightarrow> new_ylim t ax' = Inr ax'"
proof -
  assume h: "new_ylim t ax = Inr ax'"
  from new_ylim_snd [OF h] have s: "snd ax' = snd ax" .
  from has_positive_side_snd [OF s] have p: "has_positive_side ax' = has_positive_side ax" .
  show ?thesis
  proof (cases "has_positive_side ax")
    case True
    with h have "set_ylim (fmul (fneg t) (snd ax)) (snd ax) = Inr ax'" by (simp add: new_ylim_def)
    with True p s show ?thesis by (simp add: new_ylim_def)
  next
    case False
    with p show ?thesis by (simp add: new_ylim_def)
  qed
qed

lemma align_returned:
  assumes "\<not> early_return ax1 ax2" and "align_yaxis_zero ax1 ax2 = Inr (o1, o2)"
  shows "new_ylim (target_ratio ax1 ax2) ax1 = Inr o1 \<and>
         new_ylim (target_ratio ax1 ax2) ax2 = Inr o2"
  using assms(2) unfolding align_not_early [OF assms(1)]
  by (auto split: sum.splits)

lemma align_max_unchanged:
  "align_yaxis_zero ax1 ax2 = Inr (o1, o2) \<Longrightarrow> snd o1 = snd ax1 \<and> snd o2 = snd ax2"
proof (cases "early_return ax1 ax2")
  case True
  assume "align_yaxis_zero ax1 ax2 = Inr (o1, o2)"
  with True show ?thesis by (simp add: align_early)
next
  case False
  assume "align_yaxis_zero ax1 ax2 = Inr (o1, o2)"
  from align_returned [OF False this] show ?thesis by (blast dest: new_ylim_snd)
qed

lemma align_example:
  "align_yaxis_zero (Fin (- 2), Fin 10) (Fin (- 1), Fin 2) =
     Inr ((Fin (- 5), Fin 10), (Fin (- 1), Fin 2))"
  by code_simp

text \<open>
  When exactly one axis has no positive side the target ratio is infinite, the new
  minimum of the other axis is \<open>-inf\<close>, and \<^verbatim>\<open>set_ylim\<close> raises: both axes stay as they
  were.
\<close>

lemma align_infinite_ratio_raises:
  "align_yaxis_zero (Fin (- 5), Fin (- 1)) (Fin (- 1), Fin 2) =
     Inl (ValueError, (Fin (- 5), Fin (- 1)), (Fin (- 1), Fin 2))"
  by code_simp

subsection \<open>C4: no clipping\<close>

text \<open>
  C4 says that alignment never clips data: an axis with a positive maximum keeps the
  maximum and gets the minimum \<open>-target_ratio * max\<close>, so that no minimum ends above the
  original one; the code says the same (``use the larger ratio for both, so neither axis
  clips data''). The ratio and the product are rounded: for the ranges \<open>(-1, 49)\<close> and
  \<open>(0, 1)\<close> the ratio \<open>1 / 49\<close> rounds down, its product with \<open>49\<close> is \<open>1 - 2 ^ -53\<close> in
  binary64, and the first axis ends at \<open>-0.9999999999999999\<close>, above its original
  minimum \<open>-1\<close>.
\<close>

theorem align_clips_by_rounding:
  "align_yaxis_zero (Fin (- 1), Fin 49) (Fin 0, Fin 1) =
     Inr ((Fin (- (9007199254740991 / 9007199254740992)), Fin 49),
          (Fin (- (5882252574524729 / 288230376151711744)), Fin 1)) \<and>
   py_gt (Fin (- (9007199254740991 / 9007199254740992))) (Fin (- 1))"
  by code_simp

subsection \<open>C5: applying alignment to its own result\<close>

text \<open>
  Claim C5 says that alignment applied to its own result returns that result, for every
  pair of ranges. The ratios and the new minima are rounded: for the ranges
  \<open>(-36, 51)\<close> and \<open>(-36, 23)\<close> the first application gives
  \<open>(-79.82608695652175, 51)\<close> and \<open>(-36, 23)\<close>, and the second one moves the second
  minimum to \<open>-36.00000000000001\<close>.
\<close>

lemma align_36: "align_yaxis_zero (Fin (- 36), Fin 51) (Fin (- 36), Fin 23) =
   Inr ((Fin (- (351078843234215 / 4398046511104)), Fin 51), (Fin (- 36), Fin 23))"
  by code_simp

lemma align_36_again:
  "align_yaxis_zero (Fin (- (351078843234215 / 4398046511104)), Fin 51) (Fin (- 36), Fin 23) =
   Inr ((Fin (- (351078843234215 / 4398046511104)), Fin 51),
        (Fin (- (5066549580791809 / 140737488355328)), Fin 23))"
  by code_simp

theorem align_idempotent_counterexample:
  "align_yaxis_zero (Fin (- 36), Fin 51) (Fin (- 36), Fin 23) =
     Inr ((Fin (- (351078843234215 / 4398046511104)), Fin 51), (Fin (- 36), Fin 23)) \<and>
   align_yaxis_zero (Fin (- (351078843234215 / 4398046511104)), Fin 51) (Fin (- 36), Fin 23) =
     Inr ((Fin (- (351078843234215 / 4398046511104)), Fin 51),
          (Fin (- (5066549580791809 / 140737488355328)), Fin 23)) \<and>
   Fin (- (5066549580791809 / 140737488355328)) \<noteq> Fin (- 36)"
  using align_36 align_36_again by simp

text \<open>
  C5, as the code has it: the result of alignment is a fixed point whenever the function
  returned early, or the target ratio recomputed from the result is the target ratio of
  the input (no rounding error in the ratios), as for \<open>(-2, 10)\<close> and \<open>(-1, 2)\<close>.
\<close>

theorem align_fixed_point:
  assumes "align_yaxis_zero ax1 ax2 = Inr (o1, o2)"
    and "early_return ax1 ax2 \<or> target_ratio o1 o2 = target_ratio ax1 ax2"
  shows "align_yaxis_zero o1 o2 = Inr (o1, o2)"
proof (cases "early_return ax1 ax2")
  case True
  with assms(1) show ?thesis by (simp add: align_early)
next
  case False
  with assms(2) have T: "target_ratio o1 o2 = target_ratio ax1 ax2" by simp
  from align_returned [OF False assms(1)]
  have n1: "new_ylim (target_ratio ax1 ax2) ax1 = Inr o1"
    and n2: "new_ylim (target_ratio ax1 ax2) ax2 = Inr o2"
    by simp_all
  show ?thesis
  proof (cases "early_return o1 o2")
    case True
    then show ?thesis by (simp add: align_early)
  next
    case False
    show ?thesis
      unfolding align_not_early [OF False] T
      by (simp add: new_ylim_again [OF n1] new_ylim_again [OF n2])
  qed
qed

theorem align_fixed_point_witness:
  "align_yaxis_zero (Fin (- 2), Fin 10) (Fin (- 1), Fin 2) =
     Inr ((Fin (- 5), Fin 10), (Fin (- 1), Fin 2)) \<and>
   target_ratio (Fin (- 5), Fin 10) (Fin (- 1), Fin 2) =
     target_ratio (Fin (- 2), Fin 10) (Fin (- 1), Fin 2) \<and>
   align_yaxis_zero (Fin (- 5), Fin 10) (Fin (- 1), Fin 2) =
     Inr ((Fin (- 5), Fin 10), (Fin (- 1), Fin 2))"
proof -
  have t: "target_ratio (Fin (- 5), Fin 10) (Fin (- 1), Fin 2) =
     target_ratio (Fin (- 2), Fin 10) (Fin (- 1), Fin 2)"
    by code_simp
  from align_fixed_point [OF align_example] t align_example show ?thesis by simp
qed

subsection \<open>C6: zero inside the resulting ranges\<close>

text \<open>
  C6 says that both resulting ranges contain zero for every pair of input ranges, since
  the first step widens each range to contain zero; the code says the same (``ensure
  zero is included in both axes'', ``both entirely positive, zero is at bottom''). The
  widened limits are local values, and on an early return they are not written back:
  the ranges \<open>(1, 5)\<close> and \<open>(2, 3)\<close> are returned as they are, and neither contains zero.
\<close>

theorem align_zero_not_included:
  "align_yaxis_zero (Fin 1, Fin 5) (Fin 2, Fin 3) = Inr ((Fin 1, Fin 5), (Fin 2, Fin 3)) \<and>
   \<not> contains_zero (Fin 1, Fin 5) \<and> \<not> contains_zero (Fin 2, Fin 3)"
  by (simp add: align_yaxis_zero_def widen_def py_min_def py_max_def py_gt_def
      contains_zero_def py_le_def)

text \<open>
  An axis without a positive side is never set. With the ranges \<open>(-5, -1)\<close> and
  \<open>(1, 2)\<close> the second \<^verbatim>\<open>set_ylim\<close> raises, and the second axis stays \<open>(1, 2)\<close>.
\<close>

lemma align_zero_raises:
  "align_yaxis_zero (Fin (- 5), Fin (- 1)) (Fin 1, Fin 2) =
     Inl (ValueError, (Fin (- 5), Fin (- 1)), (Fin 1, Fin 2))"
  by code_simp

text \<open>
  What does hold: when the function returns, not early, from finite ranges, every axis
  with a positive side has a range that contains zero.
\<close>

lemma widen_finite:
  "finite_range ax \<Longrightarrow> \<exists>m M. widen ax = (Fin m, Fin M) \<and> m \<le> 0 \<and> 0 \<le> M"
  by (cases ax; cases "fst ax"; cases "snd ax")
     (auto simp: finite_range_def widen_def py_min_def py_max_def py_gt_def)

lemma ratio_nonneg: "m \<le> 0 \<Longrightarrow> py_le (Fin 0) (ratio (Fin m) (Fin M))"
proof -
  assume m: "m \<le> 0"
  show ?thesis
  proof (cases "0 < M")
    case True
    then have "0 \<le> - m / M" using m by (simp add: divide_le_0_iff)
    from fl64_nonneg [OF this] True show ?thesis
      by (auto simp: ratio_def py_gt_def py_le_def)
  next
    case False
    then show ?thesis by (simp add: ratio_def py_gt_def py_le_def)
  qed
qed

lemma py_max_nonneg:
  "py_le (Fin 0) a \<Longrightarrow> py_le (Fin 0) b \<Longrightarrow> py_le (Fin 0) (py_max a b)"
  by (simp add: py_max_def)

lemma fmul_neg_nonpos:
  "py_le (Fin 0) t \<Longrightarrow> 0 < M \<Longrightarrow> py_le (fmul (fneg t) (Fin M)) (Fin 0)"
proof (cases t)
  case (Fin y)
  assume "py_le (Fin 0) t" "0 < M"
  with Fin have "0 \<le> y" by (auto simp: py_le_def)
  with \<open>0 < M\<close> have "- y * M \<le> 0" by (simp add: zero_le_mult_iff)
  from fl64_nonpos [OF this] Fin show ?thesis by (auto simp: py_le_def)
qed (simp_all add: py_le_def)

lemma target_ratio_nonneg:
  assumes "finite_range ax1" "finite_range ax2"
  shows "py_le (Fin 0) (target_ratio ax1 ax2)"
proof -
  from widen_finite [OF assms(1)] obtain m1 M1 where 1: "widen ax1 = (Fin m1, Fin M1)" "m1 \<le> 0"
    by blast
  from widen_finite [OF assms(2)] obtain m2 M2 where 2: "widen ax2 = (Fin m2, Fin M2)" "m2 \<le> 0"
    by blast
  show ?thesis
    unfolding target_ratio_def using 1 2 by (simp add: py_max_nonneg ratio_nonneg)
qed

lemma new_ylim_contains_zero:
  assumes "finite_range ax" "has_positive_side ax" "py_le (Fin 0) t"
    and "new_ylim t ax = Inr ax'"
  shows "contains_zero ax'"
proof -
  from assms(1) obtain M where M: "snd ax = Fin M" by (cases "snd ax") (auto simp: finite_range_def)
  with assms(2) have pos: "0 < M"
    by (auto simp: has_positive_side_def widen_def py_max_def py_gt_def split: if_splits)
  from assms(2,4) have "ax' = (fmul (fneg t) (snd ax), snd ax)"
    by (auto simp: new_ylim_def set_ylim_def split: if_splits)
  with fmul_neg_nonpos [OF assms(3) pos] M pos show ?thesis
    by (simp add: contains_zero_def py_le_def)
qed

lemma align_returned_contains_zero:
  assumes "finite_range ax1" and "finite_range ax2" and "\<not> early_return ax1 ax2"
    and "align_yaxis_zero ax1 ax2 = Inr (o1, o2)"
  shows "(has_positive_side ax1 \<longrightarrow> contains_zero o1) \<and>
         (has_positive_side ax2 \<longrightarrow> contains_zero o2)"
  using align_returned [OF assms(3,4)] target_ratio_nonneg [OF assms(1,2)] assms(1,2)
  by (blast intro: new_ylim_contains_zero)

section \<open>Computations that may raise\<close>

lemma bind_err_simps [simp]: "bind_err (Inl e) f = Inl e" "bind_err (Inr v) f = f v"
  by (simp_all add: bind_err_def)

lemma map_err_length: "map_err f xs = Inr ys \<Longrightarrow> length ys = length xs"
proof (induction xs arbitrary: ys)
  case Nil
  then show ?case by simp
next
  case (Cons x xs)
  then show ?case
    by (cases "f x"; cases "map_err f xs") auto
qed


lemma map_err_Inl: "map_err f xs = Inl e \<Longrightarrow> \<exists>x \<in> set xs. f x = Inl e"
proof (induction xs)
  case Nil
  then show ?case by simp
next
  case (Cons x xs)
  then show ?case
    by (cases "f x"; cases "map_err f xs") auto
qed


lemma map_err_total:
  "(\<And>x. x \<in> set xs \<Longrightarrow> f x = Inr (g x)) \<Longrightarrow> map_err f xs = Inr (map g xs)"
  by (induction xs) simp_all

section \<open>Field extraction\<close>

lemma series_value_Inl:
  "series_value fos v = Inl e \<Longrightarrow>
   e = OverflowError \<and> (\<exists>n. v = JInt n \<and> \<not> is_fin (fl64 (of_int n)))"
  by (cases v)
     (auto simp: series_value_def py_float_def split: if_splits pyfloat.splits option.splits)

lemma py_float_huge: "2 ^ 1024 \<le> n \<Longrightarrow> py_float fos (JInt n) = Inl OverflowError"
proof -
  assume "2 ^ 1024 \<le> n"
  then have "(of_int (2 ^ 1024) :: rat) \<le> of_int n" by (simp only: of_int_le_iff)
  then have "pow2 1024 \<le> of_int n" by (simp add: pow2_def)
  from fl64_overflow [OF this] show ?thesis by (simp add: py_float_def)
qed

lemma get_series_cases:
  "(case get_series fos shot path of
      Inr s \<Rightarrow> length s = length (records shot)
    | Inl e \<Rightarrow> e = OverflowError \<and>
        (\<exists>r \<in> set (records shot). \<exists>n. safe_get r path (JFloat NaN) = JInt n \<and>
           \<not> is_fin (fl64 (of_int n))))"
proof (cases "get_series fos shot path")
  case (Inl e)
  then obtain r where r: "r \<in> set (records shot)"
    and sv: "series_value fos (safe_get r path (JFloat NaN)) = Inl e"
    unfolding get_series_def by (blast dest: map_err_Inl)
  from series_value_Inl [OF sv] have "e = OverflowError"
    and "\<exists>n. safe_get r path (JFloat NaN) = JInt n \<and> \<not> is_fin (fl64 (of_int n))"
    by blast+
  with r have "e = OverflowError \<and>
        (\<exists>r \<in> set (records shot). \<exists>n. safe_get r path (JFloat NaN) = JInt n \<and>
           \<not> is_fin (fl64 (of_int n)))"
    by blast
  with Inl show ?thesis by simp
next
  case (Inr s)
  then show ?thesis by (simp add: get_series_def map_err_length)
qed

lemma get_series_absent:
  assumes "\<forall>r \<in> set (records shot). safe_get r path (JFloat NaN) = JFloat NaN"
  shows "get_series fos shot path = Inr (replicate (length (records shot)) NaN)"
proof -
  have "map_err (\<lambda>r. series_value fos (safe_get r path (JFloat NaN))) (records shot)
        = Inr (map (\<lambda>r. NaN) (records shot))"
    using assms by (intro map_err_total) (simp add: series_value_def py_float_def)
  then show ?thesis by (simp add: get_series_def map_replicate_const)
qed

lemma load_length:
  "ShotData_load fos doc = Inr shot \<Longrightarrow> length (time_s shot) = length (records shot)"
  by (auto simp: ShotData_load_def times_raw_of_def elapsed_seconds_def Let_def bind_err_def
      dest: map_err_length split: json.splits option.splits sum.splits if_splits)

lemma build_series_length:
  assumes "build_series fos recs = Inr sr"
  shows "length (series_time_s sr) = length recs \<and> length (series_pressure sr) = length recs \<and>
         length (series_flow sr) = length recs \<and> length (series_motor_speed sr) = length recs \<and>
         length (series_motor_power sr) = length recs \<and>
         length (series_goal_pressure sr) = length recs \<and>
         length (series_goal_flow sr) = length recs \<and>
         length (series_goal_power sr) = length recs \<and> length (series_active sr) = length recs"
  using assms
  by (auto simp: build_series_def times_raw_of_def elapsed_seconds_def Let_def bind_err_def
      dest: map_err_length split: sum.splits)

text \<open>
  The document \<^verbatim>\<open>{"data":[{"time":0,"shot":{"pressure":9.0}},
  {"time":100,"shot":{"pressure":8.5}}]}\<close> loads with the elapsed times \<open>[0.0, 0.1]\<close> and
  the pressure series \<open>[9.0, 8.5]\<close>.
\<close>

lemma load_example: "ShotData_load (\<lambda>s. None) example_doc = Inr example_shot"
  by code_simp

lemma get_series_example:
  "get_series (\<lambda>s. None) example_shot [''shot'', ''pressure''] = Inr [Fin 9, Fin (17 / 2)]"
  by (simp add: get_series_def example_shot_def series_value_def py_float_def)

lemma build_series_example:
  "build_series (\<lambda>s. None) (records example_shot) = Inr example_series"
  by code_simp

subsection \<open>C1: extraction of a value that is not a number\<close>

text \<open>
  \<^verbatim>\<open>ShotData.get_series\<close> turns \<^verbatim>\<open>None\<close> and every \<^verbatim>\<open>TypeError\<close> and
  \<^verbatim>\<open>ValueError\<close> of \<^verbatim>\<open>float\<close> into NaN; only the \<^verbatim>\<open>OverflowError\<close> of an
  integer beyond the binary64 range leaves it.
\<close>

lemma get_series_null_is_nan:
  "get_series fos \<lparr> profile_name = p, shot_time = t,
       records = [JDict [(''time'', JInt 0), (''shot'', JDict [(''pressure'', JNull)])]],
       time_s = [Fin 0] \<rparr> [''shot'', ''pressure''] = Inr [NaN]"
  by (simp add: get_series_def series_value_def)

lemma get_series_overflow:
  "get_series fos \<lparr> profile_name = p, shot_time = t,
       records = [JDict [(''x'', JInt (2 ^ 1024))]], time_s = [Fin 0] \<rparr> [''x'']
     = Inl OverflowError"
  by (simp add: get_series_def series_value_def py_float_huge)

text \<open>
  C1 says that extracting a field never raises and that a value which cannot be coerced
  to a float (wrong type, non-numeric string, null) becomes the NaN sentinel.
  \<^verbatim>\<open>build_series\<close> of plot_met.py calls \<^verbatim>\<open>float(_safe_get(r, path))\<close> with no guard:
  on the record \<^verbatim>\<open>{"time": 0, "shot": {"pressure": null}}\<close> it raises \<^verbatim>\<open>TypeError\<close>,
  for every parser of numeric strings.
\<close>

theorem build_series_null_raises:
  "build_series fos [JDict [(''time'', JInt 0), (''shot'', JDict [(''pressure'', JNull)])]]
     = Inl TypeError"
  by (simp add: build_series_def times_raw_of_def record_time_def py_float_def fl64_def actual_def)

subsection \<open>C7: one sample per record\<close>

text \<open>
  C7: for every record stream and every path, \<^verbatim>\<open>get_series\<close> returns one sample per
  record, or raises \<^verbatim>\<open>OverflowError\<close>, which happens only when the value at the path in
  some record is an integer beyond the binary64 range; for a path that yields the
  sentinel in every record the series is all NaN, of the length of the stream. The
  elapsed times of a loaded shot, and every series \<^verbatim>\<open>build_series\<close> returns, have the
  length of the stream too.
\<close>

theorem series_length:
  "(case get_series fos shot path of
      Inr s \<Rightarrow> length s = length (records shot)
    | Inl e \<Rightarrow> e = OverflowError \<and>
        (\<exists>r \<in> set (records shot). \<exists>n. safe_get r path (JFloat NaN) = JInt n \<and>
           \<not> is_fin (fl64 (of_int n)))) \<and>
   ((\<forall>r \<in> set (records shot). safe_get r path (JFloat NaN) = JFloat NaN) \<longrightarrow>
      get_series fos shot path = Inr (replicate (length (records shot)) NaN)) \<and>
   (ShotData_load fos doc = Inr shot \<longrightarrow> length (time_s shot) = length (records shot)) \<and>
   (build_series fos recs = Inr sr \<longrightarrow>
      length (series_time_s sr) = length recs \<and> length (series_pressure sr) = length recs \<and>
      length (series_flow sr) = length recs \<and> length (series_motor_speed sr) = length recs \<and>
      length (series_motor_power sr) = length recs \<and>
      length (series_goal_pressure sr) = length recs \<and>
      length (series_goal_flow sr) = length recs \<and>
      length (series_goal_power sr) = length recs \<and> length (series_active sr) = length recs)"
  using get_series_cases [where shot = shot and path = path and fos = fos]
    get_series_absent [where shot = shot and path = path and fos = fos]
    load_length [of fos doc shot] build_series_length [of fos recs sr]
  by blast

theorem series_length_witness:
  "get_series (\<lambda>s. None) example_shot [''shot'', ''pressure''] = Inr [Fin 9, Fin (17 / 2)] \<and>
   length [Fin 9, Fin (17 / 2) :: pyfloat] = length (records example_shot) \<and>
   map (\<lambda>r. safe_get r [''sensors'', ''tube''] (JFloat NaN)) (records example_shot) =
     [JFloat NaN, JFloat NaN] \<and>
   get_series (\<lambda>s. None) example_shot [''sensors'', ''tube''] =
     Inr (replicate (length (records example_shot)) NaN) \<and>
   ShotData_load (\<lambda>s. None) example_doc = Inr example_shot \<and>
   length (time_s example_shot) = length (records example_shot) \<and>
   build_series (\<lambda>s. None) (records example_shot) = Inr example_series \<and>
   length (series_time_s example_series) = length (records example_shot) \<and>
   length (series_pressure example_series) = length (records example_shot) \<and>
   length (series_goal_power example_series) = length (records example_shot)"
proof -
  note t = series_length [where fos = "\<lambda>s. None" and shot = example_shot and doc = example_doc
      and recs = "records example_shot" and sr = example_series]
  have g: "get_series (\<lambda>s. None) example_shot [''shot'', ''pressure''] = Inr [Fin 9, Fin (17 / 2)]"
    by (rule get_series_example)
  from t [where path = "[''shot'', ''pressure'']"]
  have "case get_series (\<lambda>s. None) example_shot [''shot'', ''pressure''] of
      Inr s \<Rightarrow> length s = length (records example_shot)
    | Inl e \<Rightarrow> e = OverflowError \<and>
        (\<exists>r \<in> set (records example_shot).
           \<exists>n. safe_get r [''shot'', ''pressure''] (JFloat NaN) = JInt n \<and>
             \<not> is_fin (fl64 (of_int n)))"
    by blast
  then have l: "length [Fin 9, Fin (17 / 2) :: pyfloat] = length (records example_shot)"
    unfolding g by (simp only: sum.case)
  have a: "\<forall>r \<in> set (records example_shot).
      safe_get r [''sensors'', ''tube''] (JFloat NaN) = JFloat NaN"
    by (simp add: example_shot_def)
  from t [where path = "[''sensors'', ''tube'']"] a
  have n: "get_series (\<lambda>s. None) example_shot [''sensors'', ''tube''] =
     Inr (replicate (length (records example_shot)) NaN)"
    by blast
  from t [where path = "[]"] load_example
  have s: "length (time_s example_shot) = length (records example_shot)" by blast
  have m: "map (\<lambda>r. safe_get r [''sensors'', ''tube''] (JFloat NaN)) (records example_shot) =
     [JFloat NaN, JFloat NaN]"
    by (simp add: example_shot_def)
  from t [where path = "[]"] build_series_example
  have b: "length (series_time_s example_series) = length (records example_shot) \<and>
     length (series_pressure example_series) = length (records example_shot) \<and>
     length (series_goal_power example_series) = length (records example_shot)"
    by blast
  from g l m n load_example s build_series_example b show ?thesis by blast
qed

subsection \<open>C10: the time field\<close>







section \<open>Time normalizer: proofs\<close>

subsection \<open>The sort\<close>

lemma py_le_antisym: "py_le a b \<Longrightarrow> py_le b a \<Longrightarrow> a = b"
  by (cases a; cases b) (auto simp: py_le_def)

lemma py_le_trans: "py_le a b \<Longrightarrow> py_le b c \<Longrightarrow> py_le a c"
  by (cases a; cases b; cases c) (auto simp: py_le_def)

lemma not_lt_le: "a \<noteq> NaN \<Longrightarrow> b \<noteq> NaN \<Longrightarrow> \<not> py_lt a b \<Longrightarrow> py_le b a"
  by (cases a; cases b) (auto simp: py_le_def)

lemma py_lt_le: "py_lt a b \<Longrightarrow> py_le a b"
  by (simp add: py_le_def)

lemma py_gt_not_nan: "py_gt d (Fin 0) \<Longrightarrow> d \<noteq> NaN"
  by (cases d) (auto simp: py_gt_def)

lemma mset_insort_py: "mset (insort_py x xs) = add_mset x (mset xs)"
  by (induction xs) simp_all

lemma set_insort_py: "set (insort_py x xs) = insert x (set xs)"
  by (induction xs) auto

lemma sorted_insort_py:
  "sorted_wrt py_le xs \<Longrightarrow> x \<noteq> NaN \<Longrightarrow> NaN \<notin> set xs \<Longrightarrow> sorted_wrt py_le (insort_py x xs)"
proof (induction xs)
  case Nil
  then show ?case by simp
next
  case (Cons y ys)
  show ?case
  proof (cases "py_lt y x")
    case True
    with Cons show ?thesis by (auto simp: set_insort_py py_lt_le)
  next
    case False
    with Cons.prems have "py_le x y" by (intro not_lt_le) auto
    with Cons.prems False show ?thesis by (auto intro: py_le_trans)
  qed
qed

lemma mset_sorted_py: "mset (sorted_py xs) = mset xs"
  by (induction xs) (simp_all add: sorted_py_def mset_insort_py)

lemma sorted_sorted_py: "NaN \<notin> set xs \<Longrightarrow> sorted_wrt py_le (sorted_py xs)"
proof (induction xs)
  case Nil
  then show ?case by (simp add: sorted_py_def)
next
  case (Cons x xs)
  then have "sorted_wrt py_le (sorted_py xs)" by simp
  moreover have "NaN \<notin> set (sorted_py xs)"
    using Cons.prems mset_sorted_py [of xs] by (metis list.set_intros(2) set_mset_mset)
  moreover have "x \<noteq> NaN" using Cons.prems by auto
  ultimately have "sorted_wrt py_le (insort_py x (sorted_py xs))" by (intro sorted_insort_py)
  then show ?case by (simp add: sorted_py_def)
qed

lemma sorted_wrt_py_le_unique:
  "sorted_wrt py_le xs \<Longrightarrow> sorted_wrt py_le ys \<Longrightarrow> mset xs = mset ys \<Longrightarrow> xs = ys"
proof (induction xs arbitrary: ys)
  case Nil
  then show ?case by simp
next
  case (Cons x xs)
  from Cons.prems(3) obtain y ys' where ys: "ys = y # ys'" by (cases ys) auto
  have "x \<in> set ys" using Cons.prems(3) by (metis list.set_intros(1) set_mset_mset)
  with ys Cons.prems(2) have 1: "x = y \<or> py_le y x" by auto
  have "y \<in> set (x # xs)" using Cons.prems(3) ys by (metis list.set_intros(1) set_mset_mset)
  with Cons.prems(1) have 2: "y = x \<or> py_le x y" by auto
  from 1 2 have xy: "x = y" by (auto intro: py_le_antisym)
  with Cons.prems ys have "xs = ys'" by (intro Cons.IH) auto
  with xy ys show ?case by simp
qed

subsection \<open>C2: the inferred scale\<close>

lemma length_deltas: "length (deltas ts) = length ts - 1"
  by (induction ts rule: deltas.induct) simp_all

lemma nth_deltas: "Suc i < length ts \<Longrightarrow> deltas ts ! i = fabs (fsub (ts ! Suc i) (ts ! i))"
proof (induction ts arbitrary: i rule: deltas.induct)
  case (1 a b ts)
  then show ?case by (cases i) simp_all
qed simp_all

lemma infer_eq: "infer_time_scale_ms_to_s ts = infer_time_scale ts"
  by (simp add: infer_time_scale_ms_to_s_def infer_time_scale_def)

lemma infer_time_scale_sorted_py:
  "infer_time_scale ts =
     (let ds = filter (\<lambda>d. py_gt d (Fin 0)) (deltas ts)
      in if ds \<noteq> [] \<and> py_ge (sorted_py ds ! (length ds div 2)) (Fin 5)
         then fdiv (Fin 1) (Fin 1000) else Fin 1)"
proof (cases "length ts < 2")
  case True
  then have "deltas ts = []" using length_deltas [of ts] by simp
  with True show ?thesis by (simp add: infer_time_scale_def)
next
  case False
  have "length (sorted_py ds) = length ds" for ds
    using mset_sorted_py [of ds] by (metis size_mset)
  with False show ?thesis by (simp add: infer_time_scale_def Let_def)
qed

text \<open>
  C2: the deltas are the absolute differences of consecutive raw times; with \<open>s\<close> the
  sorted list of the positive ones, the multiplier is \<^verbatim>\<open>1.0 / 1000.0\<close> exactly when there
  are at least two samples, \<open>s\<close> is not empty and its element at index
  \<open>length s div 2\<close> is at least 5, and \<open>1.0\<close> otherwise; on that element, not being at
  least 5 is being less than 5. Both copies of the function agree.
\<close>

theorem infer_time_scale_median:
  assumes "mset s = mset (filter (\<lambda>d. py_gt d (Fin 0)) (deltas ts))"
    and "sorted_wrt py_le s"
  shows "infer_time_scale ts =
           (if 2 \<le> length ts \<and> s \<noteq> [] \<and> py_ge (s ! (length s div 2)) (Fin 5)
            then fdiv (Fin 1) (Fin 1000) else Fin 1) \<and>
         infer_time_scale_ms_to_s ts = infer_time_scale ts \<and>
         fdiv (Fin 1) (Fin 1000) \<noteq> Fin 1 \<and>
         (s \<noteq> [] \<longrightarrow> py_lt (s ! (length s div 2)) (Fin 5) = (\<not> py_ge (s ! (length s div 2)) (Fin 5))) \<and>
         length (deltas ts) = length ts - 1 \<and>
         (\<forall>i. Suc i < length ts \<longrightarrow> deltas ts ! i = fabs (fsub (ts ! Suc i) (ts ! i)))"
proof -
  let ?ds = "filter (\<lambda>d. py_gt d (Fin 0)) (deltas ts)"
  have nn: "NaN \<notin> set ?ds" by (auto dest: py_gt_not_nan)
  have "sorted_py ?ds = s"
    using assms by (intro sorted_wrt_py_le_unique sorted_sorted_py nn) (simp_all add: mset_sorted_py)
  moreover have "length ?ds = length s" using assms(1) by (metis size_mset)
  moreover have "s \<noteq> [] \<Longrightarrow> 2 \<le> length ts"
  proof -
    assume "s \<noteq> []"
    with \<open>length ?ds = length s\<close> have "?ds \<noteq> []" by auto
    then have "deltas ts \<noteq> []" by auto
    then have "0 < length (deltas ts)" by simp
    with length_deltas [of ts] show ?thesis by linarith
  qed
  moreover have "?ds = [] \<longleftrightarrow> s = []" using \<open>length ?ds = length s\<close> by auto
  ultimately have 1: "infer_time_scale ts =
           (if 2 \<le> length ts \<and> s \<noteq> [] \<and> py_ge (s ! (length s div 2)) (Fin 5)
            then fdiv (Fin 1) (Fin 1000) else Fin 1)"
    unfolding infer_time_scale_sorted_py Let_def by auto
  have 2: "s \<noteq> [] \<longrightarrow> py_lt (s ! (length s div 2)) (Fin 5) = (\<not> py_ge (s ! (length s div 2)) (Fin 5))"
  proof
    assume "s \<noteq> []"
    then have "s ! (length s div 2) \<in> set s" by (intro nth_mem) simp
    then have "s ! (length s div 2) \<in> set ?ds" using assms(1) by (metis set_mset_mset)
    then have "s ! (length s div 2) \<noteq> NaN" using nn by auto
    then show "py_lt (s ! (length s div 2)) (Fin 5) = (\<not> py_ge (s ! (length s div 2)) (Fin 5))"
      by (cases "s ! (length s div 2)") (auto simp: py_ge_def py_le_def)
  qed
  have 3: "fdiv (Fin 1) (Fin 1000) \<noteq> Fin 1" unfolding milli by simp
  have 4: "\<forall>i. Suc i < length ts \<longrightarrow> deltas ts ! i = fabs (fsub (ts ! Suc i) (ts ! i))"
    by (simp add: nth_deltas)
  from 1 2 3 4 infer_eq [of ts] length_deltas [of ts] show ?thesis by blast
qed

lemma deltas_example:
  "filter (\<lambda>d. py_gt d (Fin 0)) (deltas [Fin 0, Fin 100, Fin 200, Fin 300])
     = [Fin 100, Fin 100, Fin 100]"
  by code_simp

theorem infer_time_scale_median_witness:
  "mset [Fin 100, Fin 100, Fin 100] =
     mset (filter (\<lambda>d. py_gt d (Fin 0)) (deltas [Fin 0, Fin 100, Fin 200, Fin 300])) \<and>
   sorted_wrt py_le [Fin 100, Fin 100, Fin 100] \<and>
   py_ge ([Fin 100, Fin 100, Fin 100] ! (length [Fin 100, Fin 100, Fin 100 :: pyfloat] div 2)) (Fin 5) \<and>
   infer_time_scale [Fin 0, Fin 100, Fin 200, Fin 300] = fdiv (Fin 1) (Fin 1000)"
proof -
  have m: "mset [Fin 100, Fin 100, Fin 100] =
     mset (filter (\<lambda>d. py_gt d (Fin 0)) (deltas [Fin 0, Fin 100, Fin 200, Fin 300]))"
    by (simp only: deltas_example)
  have s: "sorted_wrt py_le [Fin 100, Fin 100, Fin 100]" by (simp add: py_le_def)
  have g: "py_ge ([Fin 100, Fin 100, Fin 100] ! (length [Fin 100, Fin 100, Fin 100 :: pyfloat] div 2)) (Fin 5)"
    by (simp add: py_ge_def py_le_def)
  from infer_time_scale_median [OF m s]
  have "infer_time_scale [Fin 0, Fin 100, Fin 200, Fin 300] =
      (if 2 \<le> length [Fin 0, Fin 100, Fin 200, Fin 300 :: pyfloat] \<and>
          [Fin 100, Fin 100, Fin 100 :: pyfloat] \<noteq> [] \<and>
          py_ge ([Fin 100, Fin 100, Fin 100] ! (length [Fin 100, Fin 100, Fin 100 :: pyfloat] div 2)) (Fin 5)
       then fdiv (Fin 1) (Fin 1000) else Fin 1)"
    by blast
  with g have "infer_time_scale [Fin 0, Fin 100, Fin 200, Fin 300] = fdiv (Fin 1) (Fin 1000)"
    by (simp del: fdiv.simps)
  with m s g show ?thesis by blast
qed

subsection \<open>C8: elapsed seconds\<close>

lemma infer_time_scale_range:
  "infer_time_scale ts = Fin 1 \<or> infer_time_scale ts = Fin (1152921504606847 / 1152921504606846976)"
  unfolding infer_time_scale_sorted_py Let_def milli by simp

lemma elapsed_seconds_nth:
  "i < length ts \<Longrightarrow>
   elapsed_seconds infer ts ! i = fmul (fsub (ts ! i) (ts ! 0)) (infer ts)"
proof -
  assume i: "i < length ts"
  then obtain a list where ts: "ts = a # list" by (cases ts) auto
  have "elapsed_seconds infer ts = map (\<lambda>t. fmul (fsub t (ts ! 0)) (infer ts)) ts"
    by (simp add: ts elapsed_seconds_def Let_def)
  with i show ?thesis by (simp only: nth_map)
qed

text \<open>
  The raw times \<open>[0, 100, 200, 300]\<close> give the elapsed times \<open>[0.0, 0.1, 0.2, 0.3]\<close>.
\<close>

lemma elapsed_example:
  "elapsed_seconds infer_time_scale [Fin 0, Fin 100, Fin 200, Fin 300] =
     [Fin 0, Fin (3602879701896397 / 36028797018963968),
      Fin (3602879701896397 / 18014398509481984), Fin (5404319552844595 / 18014398509481984)]"
  by code_simp

text \<open>
  C8 says that the first elapsed time is exactly \<open>0.0\<close> for every non-empty sequence of
  raw times. A raw time can be infinite (the JSON parser reads \<^verbatim>\<open>Infinity\<close> and
  \<^verbatim>\<open>1e999\<close> as \<^verbatim>\<open>inf\<close>), and \<^verbatim>\<open>inf - inf\<close> is NaN.
\<close>

theorem elapsed_seconds_inf_counterexample:
  "elapsed_seconds infer_time_scale [PInf] = [NaN]"
  by (simp add: elapsed_seconds_def infer_time_scale_def)

text \<open>
  C8, as the code has it: the elapsed sequence has the length of the raw one, its
  \<open>i\<close>-th element is \<open>(raw[i] - raw[0]) * multiplier\<close> in binary64 arithmetic, and its
  first element is exactly \<open>0.0\<close> whenever the first raw time is finite.
\<close>

theorem elapsed_seconds_spec:
  "length (elapsed_seconds infer_time_scale ts) = length ts \<and>
   (\<forall>i < length ts.
      elapsed_seconds infer_time_scale ts ! i = fmul (fsub (ts ! i) (ts ! 0)) (infer_time_scale ts)) \<and>
   (ts \<noteq> [] \<and> is_fin (ts ! 0) \<longrightarrow> elapsed_seconds infer_time_scale ts ! 0 = Fin 0) \<and>
   elapsed_seconds infer_time_scale_ms_to_s ts = elapsed_seconds infer_time_scale ts"
proof -
  have 1: "length (elapsed_seconds infer_time_scale ts) = length ts"
    by (simp add: elapsed_seconds_def Let_def)
  have 2: "\<forall>i < length ts.
      elapsed_seconds infer_time_scale ts ! i = fmul (fsub (ts ! i) (ts ! 0)) (infer_time_scale ts)"
    by (simp add: elapsed_seconds_nth)
  have 3: "ts \<noteq> [] \<and> is_fin (ts ! 0) \<longrightarrow> elapsed_seconds infer_time_scale ts ! 0 = Fin 0"
  proof
    assume h: "ts \<noteq> [] \<and> is_fin (ts ! 0)"
    then obtain x where x: "ts ! 0 = Fin x" by (cases "ts ! 0") auto
    from h have "elapsed_seconds infer_time_scale ts ! 0 =
        fmul (fsub (ts ! 0) (ts ! 0)) (infer_time_scale ts)"
      by (intro elapsed_seconds_nth) simp
    also have "\<dots> = fmul (Fin 0) (infer_time_scale ts)" by (simp add: x fl64_zero)
    also have "\<dots> = Fin 0" using infer_time_scale_range [of ts] by (auto simp: fl64_zero)
    finally show "elapsed_seconds infer_time_scale ts ! 0 = Fin 0" .
  qed
  have 4: "elapsed_seconds infer_time_scale_ms_to_s ts = elapsed_seconds infer_time_scale ts"
    by (simp add: elapsed_seconds_def infer_eq)
  from 1 2 3 4 show ?thesis by blast
qed

theorem elapsed_seconds_spec_witness:
  "[Fin 0, Fin 100, Fin 200, Fin 300] \<noteq> [] \<and> is_fin ([Fin 0, Fin 100, Fin 200, Fin 300] ! 0) \<and>
   elapsed_seconds infer_time_scale [Fin 0, Fin 100, Fin 200, Fin 300] ! 0 = Fin 0"
proof -
  have h: "[Fin 0, Fin 100, Fin 200, Fin 300] \<noteq> [] \<and> is_fin ([Fin 0, Fin 100, Fin 200, Fin 300] ! 0)"
    by simp
  from elapsed_seconds_spec [of "[Fin 0, Fin 100, Fin 200, Fin 300]"] h show ?thesis by blast
qed

section \<open>Trim selector: proofs\<close>

lemma trim_loop_takeWhile:
  "trim_loop d i ts (i + length ts) = i + length (takeWhile (\<lambda>t. \<not> py_gt t d) ts)"
proof (induction ts arbitrary: i)
  case Nil
  then show ?case by simp
next
  case (Cons t ts)
  from Cons.IH [of "Suc i"] show ?case by simp
qed

lemma get_trimmed_data_takeWhile:
  "get_trimmed_data shot settings =
     length (takeWhile (\<lambda>t. \<not> py_gt t (trim_duration_of shot settings)) (time_s shot))"
  using trim_loop_takeWhile [of "trim_duration_of shot settings" 0 "time_s shot"]
  by (simp add: get_trimmed_data_def trim_duration_of_def Let_def)

lemma not_gt_iff_le: "t \<noteq> NaN \<Longrightarrow> d \<noteq> NaN \<Longrightarrow> (\<not> py_gt t d) = py_le t d"
  by (cases t; cases d) (auto simp: py_gt_def py_le_def)

text \<open>
  A NaN among the elapsed times of a loaded shot: the raw times
  \<open>[0, NaN, 5000, 10000]\<close> give \<open>[0.0, NaN, 5.0, 10.0]\<close>.
\<close>

lemma nan_time_reachable:
  "elapsed_seconds infer_time_scale [Fin 0, NaN, Fin 5000, Fin 10000] = [Fin 0, NaN, Fin 5, Fin 10]"
  by code_simp

text \<open>
  C3 says that the trim index is the number of leading samples that are at most the
  bound, and also the index of the first sample above the bound. The loop breaks at the
  first \<open>t > bound\<close>; a NaN sample is neither above the bound nor at most the bound: for
  \<open>[0.0, NaN, 5.0, 10.0]\<close> and the bound 2 the index is 2, and one leading sample is at
  most 2.
\<close>

theorem trim_index_nan_counterexample:
  "get_trimmed_data \<lparr> profile_name = JNull, shot_time = JNull, records = [],
       time_s = [Fin 0, NaN, Fin 5, Fin 10] \<rparr> (Some (Fin 2)) = 2 \<and>
   length (takeWhile (\<lambda>t. py_le t (Fin 2)) [Fin 0, NaN, Fin 5, Fin 10]) = 1"
  by (simp add: get_trimmed_data_def py_gt_def py_le_def)

text \<open>
  C3, as the code has it: the trim index is the index of the first sample that is
  strictly above the bound, or the length when there is none; it is the number of
  leading samples at most the bound whenever no sample and not the bound is NaN; and
  the times \<open>[0, 1, 2, 3, 4]\<close> with the bound 2.5 give 3.
\<close>

theorem trim_index:
  "get_trimmed_data shot (Some d) \<le> length (time_s shot) \<and>
   (\<forall>i < get_trimmed_data shot (Some d). \<not> py_gt (time_s shot ! i) d) \<and>
   (get_trimmed_data shot (Some d) < length (time_s shot) \<longrightarrow>
      py_gt (time_s shot ! get_trimmed_data shot (Some d)) d) \<and>
   (NaN \<notin> set (time_s shot) \<and> d \<noteq> NaN \<longrightarrow>
      get_trimmed_data shot (Some d) = length (takeWhile (\<lambda>t. py_le t d) (time_s shot))) \<and>
   (time_s shot = [Fin 0, Fin 1, Fin 2, Fin 3, Fin 4] \<longrightarrow>
      get_trimmed_data shot (Some (Fin (5 / 2))) = 3)"
proof -
  let ?ts = "time_s shot"
  let ?k = "get_trimmed_data shot (Some d)"
  have k: "?k = length (takeWhile (\<lambda>t. \<not> py_gt t d) ?ts)"
    by (simp add: get_trimmed_data_takeWhile trim_duration_of_def)
  have 1: "?k \<le> length ?ts" unfolding k by (rule length_takeWhile_le)
  have 2: "\<forall>i < ?k. \<not> py_gt (?ts ! i) d"
    unfolding k using nth_length_takeWhile takeWhile_nth
    by (metis (mono_tags, lifting) nth_mem set_takeWhileD)
  have 3: "?k < length ?ts \<longrightarrow> py_gt (?ts ! ?k) d"
    unfolding k using nth_length_takeWhile [of "\<lambda>t. \<not> py_gt t d" ?ts] by blast
  have 4: "NaN \<notin> set ?ts \<and> d \<noteq> NaN \<longrightarrow> ?k = length (takeWhile (\<lambda>t. py_le t d) ?ts)"
  proof
    assume h: "NaN \<notin> set ?ts \<and> d \<noteq> NaN"
    then have "t \<in> set ?ts \<Longrightarrow> (\<not> py_gt t d) = py_le t d" for t
      by (intro not_gt_iff_le) auto
    then have "takeWhile (\<lambda>t. \<not> py_gt t d) ?ts = takeWhile (\<lambda>t. py_le t d) ?ts"
      by (intro takeWhile_cong) simp_all
    then show "?k = length (takeWhile (\<lambda>t. py_le t d) ?ts)" by (simp add: k)
  qed
  have 5: "time_s shot = [Fin 0, Fin 1, Fin 2, Fin 3, Fin 4] \<longrightarrow>
      get_trimmed_data shot (Some (Fin (5 / 2))) = 3"
    by (simp add: get_trimmed_data_def py_gt_def)
  from 1 2 3 4 5 show ?thesis by blast
qed

theorem trim_index_witness:
  "NaN \<notin> set [Fin 0, Fin 1, Fin 2, Fin 3, Fin 4] \<and> Fin (5 / 2) \<noteq> NaN \<and>
   get_trimmed_data \<lparr> profile_name = JNull, shot_time = JNull, records = [],
       time_s = [Fin 0, Fin 1, Fin 2, Fin 3, Fin 4] \<rparr> (Some (Fin (5 / 2))) = 3 \<and>
   length (takeWhile (\<lambda>t. py_le t (Fin (5 / 2))) [Fin 0, Fin 1, Fin 2, Fin 3, Fin 4]) = 3"
proof -
  let ?shot = "\<lparr> profile_name = JNull, shot_time = JNull, records = [],
       time_s = [Fin 0, Fin 1, Fin 2, Fin 3, Fin 4] \<rparr>"
  have n: "NaN \<notin> set (time_s ?shot) \<and> Fin (5 / 2) \<noteq> NaN" by simp
  have t: "time_s ?shot = [Fin 0, Fin 1, Fin 2, Fin 3, Fin 4]" by simp
  from trim_index [of ?shot "Fin (5 / 2)"] t
  have a: "get_trimmed_data ?shot (Some (Fin (5 / 2))) = 3" by blast
  from trim_index [of ?shot "Fin (5 / 2)"] n
  have "get_trimmed_data ?shot (Some (Fin (5 / 2))) =
        length (takeWhile (\<lambda>t. py_le t (Fin (5 / 2))) (time_s ?shot))" by blast
  with a have b: "length (takeWhile (\<lambda>t. py_le t (Fin (5 / 2))) [Fin 0, Fin 1, Fin 2, Fin 3, Fin 4]) = 3"
    by simp
  from n a b show ?thesis by simp
qed

section \<open>Comparison assembler: proofs\<close>


text \<open>A dotted override gives two dotted traces.\<close>

lemma compare_traces_dotted_twice:
  "compare_traces [RGB 0 0 1]
     [''shot.pressure'' \<mapsto> \<lparr> style_color = None, style_linestyle = Some '':'',
                               style_linewidth = None \<rparr>] 0 ''shot.pressure''
   = Inr (\<lparr> trace_color = RGB 0 0 1, trace_linestyle = '':'', trace_linewidth = 3 / 2 \<rparr>,
          \<lparr> trace_color = RGB 0 0 1, trace_linestyle = '':'', trace_linewidth = 3 / 2 \<rparr>)"
  by (simp add: compare_traces_def Let_def)




end
